theory Spec2Isabelle
  imports Main "HOL-Library.Sublist" "HOL-Library.Code_Target_Nat"
begin

section \<open>Python text primitives\<close>

text \<open>
  A Python \<open>str\<close> is a sequence of Unicode code points; a code point is a natural
  number and a string is a list of them.  ASCII literals are written through \<open>U\<close>.
\<close>

type_synonym ustr = "nat list"

definition U :: "string \<Rightarrow> ustr" where
  "U s = map of_char s"

text \<open>
  \<open>str.lower\<close>.  The Basic Latin block and the Cyrillic block U+0400..U+045F are written
  out; every other code point is looked up in the remaining case table \<open>L\<close>, a parameter
  that receives the code point with the text before and after it (the lowercase of a
  capital sigma depends on its position) and returns the replacement text (one code point
  can lowercase to two).
\<close>

type_synonym case_table = "ustr \<Rightarrow> nat \<Rightarrow> ustr \<Rightarrow> ustr"

definition lower_cp :: "case_table \<Rightarrow> ustr \<Rightarrow> nat \<Rightarrow> ustr \<Rightarrow> ustr" where
  "lower_cp L pre c post =
     (if c < 128 then (if 65 \<le> c \<and> c \<le> 90 then [c + 32] else [c])
      else if 1024 \<le> c \<and> c \<le> 1039 then [c + 80]
      else if 1040 \<le> c \<and> c \<le> 1071 then [c + 32]
      else if 1072 \<le> c \<and> c \<le> 1119 then [c]
      else L pre c post)"

fun lower_from :: "case_table \<Rightarrow> ustr \<Rightarrow> ustr \<Rightarrow> ustr" where
  "lower_from L pre [] = []"
| "lower_from L pre (c # cs) = lower_cp L pre c cs @ lower_from L (pre @ [c]) cs"

definition py_lower :: "case_table \<Rightarrow> ustr \<Rightarrow> ustr" where
  "py_lower L s = lower_from L [] s"

text \<open>A case table that leaves every code point outside the two blocks as it is.\<close>

definition no_case :: case_table where
  "no_case pre c post = [c]"

text \<open>
  The values \<open>normalize_text\<close> may be handed, and \<open>str()\<close> on those that are not text:
  integers print in decimal with a leading minus sign, booleans and \<open>None\<close> by name.
  (Floats are left out: their printed form is a matter of floating point.  The
  interpreter's configurable limit on the number of digits of an integer is not modelled.)
\<close>

datatype pyval = PStr ustr | PInt int | PBool bool | PNone

fun dec_digits :: "nat \<Rightarrow> ustr" where
  "dec_digits n = (if n < 10 then [48 + n] else dec_digits (n div 10) @ [48 + n mod 10])"

declare dec_digits.simps [simp del]

fun py_str :: "pyval \<Rightarrow> ustr" where
  "py_str (PStr s) = s"
| "py_str (PInt i) = (if i < 0 then 45 # dec_digits (nat (- i)) else dec_digits (nat i))"
| "py_str (PBool b) = (if b then U ''True'' else U ''False'')"
| "py_str PNone = U ''None''"

text \<open>
  \<open>re.sub(pattern, repl, text)\<close> for a pattern that is one character class: every code
  point the class matches is replaced by \<open>repl\<close>, every other one is copied.
\<close>

primrec re_sub_class :: "(nat \<Rightarrow> bool) \<Rightarrow> ustr \<Rightarrow> ustr \<Rightarrow> ustr" where
  "re_sub_class m repl [] = []"
| "re_sub_class m repl (c # cs) = (if m c then repl else [c]) @ re_sub_class m repl cs"

text \<open>
  The positive class of the pattern: a..z, the Cyrillic small letters U+0430..U+044F,
  the small letter io U+0451, and 0..9.
\<close>

definition in_class :: "nat \<Rightarrow> bool" where
  "in_class c \<longleftrightarrow>
     (97 \<le> c \<and> c \<le> 122) \<or> (1072 \<le> c \<and> c \<le> 1103) \<or> c = 1105 \<or> (48 \<le> c \<and> c \<le> 57)"

text \<open>
  \<open>needle in haystack\<close> on strings: the needle occurs as a contiguous block, tried at
  every position from the left.
\<close>

fun py_in :: "ustr \<Rightarrow> ustr \<Rightarrow> bool" where
  "py_in xs [] = (xs = [])"
| "py_in xs (y # ys) = (prefix xs (y # ys) \<or> py_in xs ys)"

text \<open>
  \<open>str.rfind\<close> of one code point: the highest index holding it, or \<open>-1\<close>.
\<close>

primrec rfind_aux :: "ustr \<Rightarrow> nat \<Rightarrow> int \<Rightarrow> int \<Rightarrow> int" where
  "rfind_aux [] c i found = found"
| "rfind_aux (x # xs) c i found = rfind_aux xs c (i + 1) (if x = c then i else found)"

definition rfind :: "ustr \<Rightarrow> nat \<Rightarrow> int" where
  "rfind p c = rfind_aux p c 0 (- 1)"

text \<open>
  \<open>os.path.splitext\<close>.  Both flavours of \<open>os.path\<close> call the same helper
  \<open>_splitext(p, sep, altsep, extsep)\<close>: \<open>posixpath\<close> with \<open>'/'\<close> and no alternative
  separator, \<open>ntpath\<close> with a backslash and \<open>'/'\<close>; the extension separator is \<open>'.'\<close>.
  The helper looks for the last dot after the last separator and skips the dots the
  file name begins with: the loop \<open>skip_dots\<close> answers whether some position between
  the start of the file name and the last dot holds something else than a dot.
\<close>

datatype os_path = Posix | Nt

fun sep :: "os_path \<Rightarrow> nat" where
  "sep Posix = 47"
| "sep Nt = 92"

fun altsep :: "os_path \<Rightarrow> nat option" where
  "altsep Posix = None"
| "altsep Nt = Some 47"

definition extsep :: nat where
  "extsep = 46"

function skip_dots :: "ustr \<Rightarrow> nat \<Rightarrow> nat \<Rightarrow> nat \<Rightarrow> bool" where
  "skip_dots p e filenameIndex dotIndex =
     (if filenameIndex < dotIndex then
        (if take 1 (drop filenameIndex p) \<noteq> [e] then True
         else skip_dots p e (filenameIndex + 1) dotIndex)
      else False)"
  by pat_completeness auto
termination
  by (relation "measure (\<lambda>(p, e, filenameIndex, dotIndex). dotIndex - filenameIndex)") auto

declare skip_dots.simps [simp del]

definition splitext_generic :: "ustr \<Rightarrow> nat \<Rightarrow> nat option \<Rightarrow> nat \<Rightarrow> ustr \<times> ustr" where
  "splitext_generic p s a e =
     (let sepIndex = (case a of None \<Rightarrow> rfind p s | Some a' \<Rightarrow> max (rfind p s) (rfind p a'));
          dotIndex = rfind p e
      in if dotIndex > sepIndex \<and> skip_dots p e (nat (sepIndex + 1)) (nat dotIndex)
         then (take (nat dotIndex) p, drop (nat dotIndex) p)
         else (p, []))"

definition splitext :: "os_path \<Rightarrow> ustr \<Rightarrow> ustr \<times> ustr" where
  "splitext fl p = splitext_generic p (sep fl) (altsep fl) extsep"

text \<open>The code points that separate path components in a flavour.\<close>

definition seps :: "os_path \<Rightarrow> nat set" where
  "seps fl = insert (sep fl) (set_option (altsep fl))"

section \<open>Normalizer (main.py and categorizer.py, identical bodies)\<close>

definition normalize_text :: "case_table \<Rightarrow> pyval \<Rightarrow> ustr" where
  "normalize_text L text =
     (let text1 = (case text of PStr s \<Rightarrow> s | _ \<Rightarrow> py_str text);
          text2 = py_lower L text1
      in re_sub_class (\<lambda>c. \<not> in_class c) [] text2)"

definition normalize_filename :: "case_table \<Rightarrow> os_path \<Rightarrow> ustr \<Rightarrow> ustr" where
  "normalize_filename L fl filename =
     (let filename_without_ext = fst (splitext fl filename)
      in normalize_text L (PStr filename_without_ext))"

text \<open>
  The reading of the specification: the extension is the trailing segment after the
  last \<open>'.'\<close> of the path, wherever that dot stands.
\<close>

definition spec_strip_extension :: "ustr \<Rightarrow> ustr" where
  "spec_strip_extension p =
     (if extsep \<in> set p then rev (tl (dropWhile (\<lambda>c. c \<noteq> extsep) (rev p))) else p)"

definition spec_normalize_filename :: "case_table \<Rightarrow> ustr \<Rightarrow> ustr" where
  "spec_normalize_filename L p = normalize_text L (PStr (spec_strip_extension p))"

section \<open>Matcher\<close>

text \<open>
  A Python \<open>dict\<close> keeps its items in insertion order and holds each key once: it is a
  list of key-value pairs whose keys are distinct.  \<open>k in d\<close> and \<open>d[k]\<close> are \<open>map_of\<close>,
  \<open>d.items()\<close> is the list itself.
\<close>

type_synonym ('k, 'v) dict = "('k \<times> 'v) list"

text \<open>categorizer.py, \<open>find_matching_name\<close>: the loop over the items, then the function.\<close>

fun scan_items :: "ustr \<Rightarrow> (ustr, 'v) dict \<Rightarrow> 'v option" where
  "scan_items file_normalized [] = None"
| "scan_items file_normalized ((excel_normalized, excel_original) # rest) =
     (if py_in file_normalized excel_normalized \<or> py_in excel_normalized file_normalized
      then Some excel_original
      else scan_items file_normalized rest)"

definition find_matching_name :: "ustr \<Rightarrow> (ustr, 'v) dict \<Rightarrow> 'v option" where
  "find_matching_name file_normalized excel_names_normalized_dict =
     (case map_of excel_names_normalized_dict file_normalized of
        Some original \<Rightarrow> Some original
      | None \<Rightarrow> scan_items file_normalized excel_names_normalized_dict)"

text \<open>
  main.py, \<open>LiferayFileUploader.find_description_for_file\<close>: the same search on the file
  name's normalized stem, over entries that carry the description.
\<close>

record ref_entry =
  original_name :: ustr
  entry_description :: ustr
  excel_row :: int

fun scan_descriptions :: "ustr \<Rightarrow> (ustr, ref_entry) dict \<Rightarrow> ustr option" where
  "scan_descriptions file_norm [] = None"
| "scan_descriptions file_norm ((norm_name, data) # rest) =
     (if py_in file_norm norm_name \<or> py_in norm_name file_norm
      then Some (entry_description data)
      else scan_descriptions file_norm rest)"

definition find_description_for_file ::
  "case_table \<Rightarrow> os_path \<Rightarrow> (ustr, ref_entry) dict \<Rightarrow> ustr \<Rightarrow> ustr option" where
  "find_description_for_file L fl descriptions filename =
     (let file_norm = normalize_filename L fl filename
      in case map_of descriptions file_norm of
           Some data \<Rightarrow> Some (entry_description data)
         | None \<Rightarrow> scan_descriptions file_norm descriptions)"

section \<open>Extension filter of the directory walk (\<open>file_uploader.py\<close>)\<close>

text \<open>
  \<open>FileUploader._check_file_extension\<close>.  The allow-list is optional: \<open>None\<close> and the
  empty list are both false in \<open>if not extensions\<close>.  \<open>x in extensions\<close> is membership in
  a list of strings.
\<close>

definition check_file_extension ::
  "case_table \<Rightarrow> os_path \<Rightarrow> ustr \<Rightarrow> ustr list option \<Rightarrow> bool" where
  "check_file_extension L fl filename extensions =
     (case extensions of
        None \<Rightarrow> True
      | Some exts \<Rightarrow>
          if exts = [] then True
          else let file_ext = py_lower L (snd (splitext fl filename))
               in file_ext \<in> set exts \<or> U ''.'' @ file_ext \<in> set exts)"

text \<open>
  The reading of the specification: the file's extension and an entry of the allow-list
  are equal once both are lowercased; no allow-list, or an empty one, accepts every file.
\<close>

definition spec_extension_allowed ::
  "case_table \<Rightarrow> os_path \<Rightarrow> ustr \<Rightarrow> ustr list option \<Rightarrow> bool" where
  "spec_extension_allowed L fl filename extensions =
     (case extensions of
        None \<Rightarrow> True
      | Some exts \<Rightarrow>
          exts = [] \<or> list_ex (\<lambda>e. py_lower L e = py_lower L (snd (splitext fl filename))) exts)"

section \<open>Remote service, local files and the uploader's state\<close>

text \<open>
  What \<open>LiferayClient.call_jsonws\<close> returns: the decoded JSON body, the body as a string
  when it is not JSON, or \<open>None\<close> on a bad status or an exception (it never raises).
  \<open>JNull\<close> is \<open>None\<close>; numbers are integers here; an object is a dictionary.
\<close>

datatype json = JNull | JBool bool | JInt int | JStr ustr | JList "json list"
  | JObj "(ustr \<times> json) list"

type_synonym jobj = "(ustr, json) dict"

text \<open>Truth value of a Python value in \<open>if x\<close>.\<close>

fun truthy :: "json \<Rightarrow> bool" where
  "truthy JNull = False"
| "truthy (JBool b) = b"
| "truthy (JInt i) = (i \<noteq> 0)"
| "truthy (JStr s) = (s \<noteq> [])"
| "truthy (JList xs) = (xs \<noteq> [])"
| "truthy (JObj kvs) = (kvs \<noteq> [])"

text \<open>\<open>d.get(key)\<close> on a dictionary: the value, or \<open>None\<close>.\<close>

definition dict_get :: "jobj \<Rightarrow> ustr \<Rightarrow> json" where
  "dict_get d key = (case map_of d key of Some v \<Rightarrow> v | None \<Rightarrow> JNull)"

text \<open>
  An \<open>Optional[Dict]\<close> in a condition: \<open>None\<close> and the empty dictionary are false.
\<close>

fun truthy_opt :: "jobj option \<Rightarrow> bool" where
  "truthy_opt None = False"
| "truthy_opt (Some d) = (d \<noteq> [])"

text \<open>
  The four remote methods the uploader calls, with the parameters it sends:
  \<open>dlapp/get-file-entries\<close> (repositoryId, folderId; start and end are always -1),
  \<open>dlapp/update-file-entry\<close> (fileEntryId, description),
  \<open>dlapp/delete-file-entry\<close> (fileEntryId) and
  \<open>dlapp/add-file-entry\<close> (repositoryId, folderId, sourceFileName, mimeType, title,
  description, changeLog, file).  The service context is always \<open>'{}'\<close>.
\<close>

datatype rpc =
    GetFileEntries int int
  | UpdateFileEntry json ustr
  | DeleteFileEntry json
  | AddFileEntry int int ustr ustr ustr ustr ustr ustr

text \<open>
  The remote service is an external collaborator: any function from a call and the
  service's state to an answer and the next state.
\<close>

type_synonym 's client = "rpc \<Rightarrow> 's \<Rightarrow> json \<times> 's"

text \<open>
  Library functions taken as given: \<open>os.path.exists\<close>, \<open>os.path.basename\<close>, reading a
  file and encoding it in base64 (\<open>None\<close> when \<open>open\<close> or \<open>read\<close> raises),
  \<open>mimetypes.guess_type\<close>, and \<open>str.format\<close> with the keywords \<open>filename\<close>, \<open>index\<close>
  and \<open>total\<close> (\<open>None\<close> when it raises on the template).
\<close>

record env =
  path_exists :: "ustr \<Rightarrow> bool"
  basename :: "ustr \<Rightarrow> ustr"
  read_b64 :: "ustr \<Rightarrow> ustr option"
  guess_type :: "ustr \<Rightarrow> ustr option"
  format_template :: "ustr \<Rightarrow> ustr \<Rightarrow> nat \<Rightarrow> nat \<Rightarrow> ustr option"

text \<open>
  The state a \<open>FileUploader\<close> works on: the service behind its client, its cache of MIME
  types, and the remote calls made so far, in order (kept to state which calls a method
  issues; the logger's output is not modelled, nor is the pause between two uploads).
\<close>

record 's world =
  server :: 's
  mime_cache :: "(ustr, ustr) dict"
  calls :: "rpc list"

definition call_jsonws :: "'s client \<Rightarrow> rpc \<Rightarrow> 's world \<Rightarrow> json \<times> 's world" where
  "call_jsonws c r w =
     (case c r (server w) of
        (res, s') \<Rightarrow> (res, w\<lparr>server := s', calls := calls w @ [r]\<rparr>))"

section \<open>FileUploader (\<open>file_uploader.py\<close>)\<close>

text \<open>
  \<open>check_file_exists\<close>.  The loop over the entries returns the first one whose title is
  the file name without extension or whose name is the file name.  An entry that is not a
  dictionary has no \<open>get\<close>: the exception is caught and the method returns \<open>None\<close>.
\<close>

fun find_entry :: "os_path \<Rightarrow> ustr \<Rightarrow> json list \<Rightarrow> jobj option" where
  "find_entry fl filename [] = None"
| "find_entry fl filename (file_entry # rest) =
     (case file_entry of
        JObj d \<Rightarrow>
          if dict_get d (U ''title'') = JStr (fst (splitext fl filename))
             \<or> dict_get d (U ''name'') = JStr filename
          then Some d
          else find_entry fl filename rest
      | _ \<Rightarrow> None)"

definition check_file_exists ::
  "'s client \<Rightarrow> os_path \<Rightarrow> int \<Rightarrow> int \<Rightarrow> ustr \<Rightarrow> 's world \<Rightarrow> jobj option \<times> 's world" where
  "check_file_exists c fl site_id folder_id filename w =
     (case call_jsonws c (GetFileEntries site_id folder_id) w of
        (result, w1) \<Rightarrow>
          (case result of
             JList entries \<Rightarrow> (if entries \<noteq> [] then find_entry fl filename entries else None, w1)
           | _ \<Rightarrow> (None, w1)))"

definition update_file_description ::
  "'s client \<Rightarrow> json \<Rightarrow> ustr \<Rightarrow> 's world \<Rightarrow> bool \<times> 's world" where
  "update_file_description c file_entry_id description w =
     (case call_jsonws c (UpdateFileEntry file_entry_id description) w of
        (result, w1) \<Rightarrow> (truthy result, w1))"

definition delete_file :: "'s client \<Rightarrow> json \<Rightarrow> 's world \<Rightarrow> bool \<times> 's world" where
  "delete_file c file_entry_id w =
     (case call_jsonws c (DeleteFileEntry file_entry_id) w of
        (result, w1) \<Rightarrow> (truthy result, w1))"

definition get_mime_type :: "env \<Rightarrow> ustr \<Rightarrow> 's world \<Rightarrow> ustr \<times> 's world" where
  "get_mime_type E file_path w =
     (case map_of (mime_cache w) file_path of
        Some cached \<Rightarrow> (cached, w)
      | None \<Rightarrow>
          (let mime_type = (case guess_type E file_path of
                              None \<Rightarrow> U ''application/octet-stream''
                            | Some t \<Rightarrow> if t = [] then U ''application/octet-stream'' else t)
           in (mime_type, w\<lparr>mime_cache := mime_cache w @ [(file_path, mime_type)]\<rparr>)))"

text \<open>
  \<open>_upload_file_internal\<close>.  Returns the answer of the add call when it is true, else
  \<open>None\<close>: also when the file cannot be read (no call is made), and when the answer is
  true but no dictionary while a description was requested (\<open>result.get\<close> raises inside
  the \<open>try\<close>).  The outcome of the description update is not looked at.
\<close>

definition upload_file_internal ::
  "'s client \<Rightarrow> env \<Rightarrow> os_path \<Rightarrow> ustr \<Rightarrow> int \<Rightarrow> int \<Rightarrow> ustr \<Rightarrow> ustr \<Rightarrow> 's world
   \<Rightarrow> json \<times> 's world" where
  "upload_file_internal c E fl file_path site_id folder_id description change_log w =
     (let file_name = basename E file_path
      in case read_b64 E file_path of
           None \<Rightarrow> (JNull, w)
         | Some file_content \<Rightarrow>
             (case get_mime_type E file_path w of
                (mime_type, w1) \<Rightarrow>
                  (case call_jsonws c
                          (AddFileEntry site_id folder_id file_name mime_type
                             (fst (splitext fl file_name)) description change_log file_content)
                          w1 of
                     (result, w2) \<Rightarrow>
                       if truthy result then
                         (if description \<noteq> [] then
                            (case result of
                               JObj d \<Rightarrow>
                                 if \<not> truthy (dict_get d (U ''description'')) then
                                   (case update_file_description c
                                           (dict_get d (U ''fileEntryId'')) description w2 of
                                      (updated, w3) \<Rightarrow> (result, w3))
                                 else (result, w2)
                             | _ \<Rightarrow> (JNull, w2))
                          else (result, w2))
                       else (JNull, w2))))"

text \<open>
  \<open>upload_or_replace_file\<close>.  \<open>the existing_file\<close> is read only where
  \<open>truthy_opt existing_file\<close> holds, that is, where a document was found.
\<close>

definition upload_or_replace_file ::
  "'s client \<Rightarrow> env \<Rightarrow> os_path \<Rightarrow> ustr \<Rightarrow> int \<Rightarrow> int \<Rightarrow> ustr \<Rightarrow> bool \<Rightarrow> ustr \<Rightarrow> 's world
   \<Rightarrow> json \<times> 's world" where
  "upload_or_replace_file c E fl file_path site_id folder_id description replace_existing
       change_log w =
     (if \<not> path_exists E file_path then (JNull, w)
      else
        (let file_name = basename E file_path
         in case check_file_exists c fl site_id folder_id file_name w of
              (existing_file, w1) \<Rightarrow>
                (let w2 = (if truthy_opt existing_file \<and> replace_existing
                           then snd (delete_file c
                                       (dict_get (the existing_file) (U ''fileEntryId'')) w1)
                           else w1)
                 in case upload_file_internal c E fl file_path site_id folder_id
                           description change_log w2 of
                      (result, w3) \<Rightarrow>
                        if \<not> truthy result \<and> truthy_opt existing_file \<and> \<not> replace_existing
                        then
                          (if description \<noteq> [] then
                             (case update_file_description c
                                     (dict_get (the existing_file) (U ''fileEntryId''))
                                     description w3 of
                                (updated, w4) \<Rightarrow> (JObj (the existing_file), w4))
                           else (result, w3))
                        else (result, w3))))"

text \<open>
  \<open>upload_files_batch\<close>.  The entry recorded for a successful file, the four lists of the
  result, and the exceptions that leave the loop (nothing in it catches them):
  \<open>str.format\<close> failing on the template, and \<open>result.get\<close> on an answer that is true
  but no dictionary.  \<open>was_replaced\<close> holds the truth value of \<open>is_replacement\<close>.
\<close>

record result_info =
  info_file_path :: ustr
  info_file_name :: ustr
  info_file_entry_id :: json
  info_uuid :: json
  info_title :: json
  info_description :: json
  was_replaced :: bool

record batch_results =
  successful :: "result_info list"
  failed :: "ustr list"
  skipped :: "ustr list"
  replaced :: "result_info list"

datatype exn = FormatError | AttributeError

text \<open>The change log of file \<open>i\<close> out of \<open>total\<close> (a Russian sentence with both numbers).\<close>

definition batch_change_log :: "nat \<Rightarrow> nat \<Rightarrow> ustr" where
  "batch_change_log i total_files =
     [1055, 1072, 1082, 1077, 1090, 1085, 1072, 1103, 32, 1079, 1072, 1075, 1088, 1091,
      1079, 1082, 1072, 44, 32, 1092, 1072, 1081, 1083, 32]
     @ dec_digits i @ [32, 1080, 1079, 32] @ dec_digits total_files"

text \<open>The description of one file: the formatted template, then the metadata's.\<close>

definition batch_description ::
  "env \<Rightarrow> ustr \<Rightarrow> (ustr, (ustr, ustr) dict) dict option \<Rightarrow> ustr \<Rightarrow> nat \<Rightarrow> nat \<Rightarrow> ustr option" where
  "batch_description E description_template metadata file_name i total_files =
     (case (if description_template \<noteq> []
            then format_template E description_template file_name i total_files
            else Some []) of
        None \<Rightarrow> None
      | Some description \<Rightarrow>
          (case metadata of
             None \<Rightarrow> Some description
           | Some md \<Rightarrow>
               (if md \<noteq> [] then
                  (case map_of md file_name of
                     None \<Rightarrow> Some description
                   | Some file_meta \<Rightarrow>
                       (case map_of file_meta (U ''description'') of
                          None \<Rightarrow> Some description
                        | Some meta_description \<Rightarrow>
                            if description \<noteq> [] then Some (description @ [10] @ meta_description)
                            else Some meta_description))
                else Some description)))"

fun batch_loop ::
  "'s client \<Rightarrow> env \<Rightarrow> os_path \<Rightarrow> int \<Rightarrow> int \<Rightarrow> ustr \<Rightarrow> bool
   \<Rightarrow> (ustr, (ustr, ustr) dict) dict option \<Rightarrow> nat \<Rightarrow> nat \<Rightarrow> ustr list \<Rightarrow> batch_results
   \<Rightarrow> 's world \<Rightarrow> (exn + batch_results) \<times> 's world" where
  "batch_loop c E fl site_id folder_id description_template replace_existing metadata total_files
       i [] results w = (Inr results, w)"
| "batch_loop c E fl site_id folder_id description_template replace_existing metadata total_files
       i (path # rest) results w =
     (if \<not> path_exists E path then
        batch_loop c E fl site_id folder_id description_template replace_existing metadata
          total_files (i + 1) rest (results\<lparr>skipped := skipped results @ [path]\<rparr>) w
      else
        (let name = basename E path
         in case batch_description E description_template metadata name i total_files of
              None \<Rightarrow> (Inl FormatError, w)
            | Some description \<Rightarrow>
                (case check_file_exists c fl site_id folder_id name w of
                   (existing_file, w1) \<Rightarrow>
                     (let is_replacement = (truthy_opt existing_file \<and> replace_existing)
                      in case upload_or_replace_file c E fl path site_id folder_id description
                                replace_existing (batch_change_log i total_files) w1 of
                           (result, w2) \<Rightarrow>
                             if truthy result then
                               (case result of
                                  JObj d \<Rightarrow>
                                    (let info = \<lparr>info_file_path = path, info_file_name = name,
                                           info_file_entry_id = dict_get d (U ''fileEntryId''),
                                           info_uuid = dict_get d (U ''uuid''),
                                           info_title = dict_get d (U ''title''),
                                           info_description =
                                             (case map_of d (U ''description'') of
                                                Some v \<Rightarrow> v | None \<Rightarrow> JStr description),
                                           was_replaced = is_replacement\<rparr>;
                                         results1 = results\<lparr>successful :=
                                                       successful results @ [info]\<rparr>;
                                         results2 = (if is_replacement
                                                     then results1\<lparr>replaced :=
                                                            replaced results1 @ [info]\<rparr>
                                                     else results1)
                                     in batch_loop c E fl site_id folder_id description_template
                                          replace_existing metadata total_files (i + 1) rest results2 w2)
                                | _ \<Rightarrow> (Inl AttributeError, w2))
                             else
                               batch_loop c E fl site_id folder_id description_template
                                 replace_existing metadata total_files (i + 1) rest
                                 (results\<lparr>failed := failed results @ [path]\<rparr>) w2))))"

definition upload_files_batch ::
  "'s client \<Rightarrow> env \<Rightarrow> os_path \<Rightarrow> ustr list \<Rightarrow> int \<Rightarrow> int \<Rightarrow> ustr \<Rightarrow> bool
   \<Rightarrow> (ustr, (ustr, ustr) dict) dict option \<Rightarrow> 's world \<Rightarrow> (exn + batch_results) \<times> 's world" where
  "upload_files_batch c E fl files_list site_id folder_id description_template replace_existing
       metadata w =
     batch_loop c E fl site_id folder_id description_template replace_existing metadata
       (length files_list) 1 files_list
       \<lparr>successful = [], failed = [], skipped = [], replaced = []\<rparr> w"


text \<open>
  A remote service answers with documents when every true answer to an add call is a
  JSON object.
\<close>

definition answers_documents :: "'s client \<Rightarrow> bool" where
  "answers_documents c \<longleftrightarrow>
     (\<forall>a b n m t d l f s.
        truthy (fst (c (AddFileEntry a b n m t d l f) s))
        \<longrightarrow> (\<exists>doc. fst (c (AddFileEntry a b n m t d l f) s) = JObj doc))"

section \<open>An example service and folder\<close>

text \<open>
  A small remote service to run the uploader on: its state is the list of documents of
  one folder.  It lists them, deletes by identifier, refuses to add \<open>c.jpg\<close>, answers
  an add with the new document (without a description), and always fails to update a
  description.  Locally every path exists but \<open>missing.jpg\<close>, and every file is readable.
\<close>

definition demo_env :: env where
  "demo_env = \<lparr>path_exists = (\<lambda>p. p \<noteq> U ''missing.jpg''), basename = (\<lambda>p. p),
               read_b64 = (\<lambda>p. Some (U ''QUJD'')), guess_type = (\<lambda>p. None),
               format_template = (\<lambda>t f i n. Some t)\<rparr>"

definition demo_client :: "json list client" where
  "demo_client r s =
     (case r of
        GetFileEntries a b \<Rightarrow> (JList s, s)
      | UpdateFileEntry fid d \<Rightarrow> (JNull, s)
      | DeleteFileEntry fid \<Rightarrow>
          (JBool True,
           filter (\<lambda>e. case e of JObj kv \<Rightarrow> dict_get kv (U ''fileEntryId'') \<noteq> fid | _ \<Rightarrow> True) s)
      | AddFileEntry a b n m t d l f \<Rightarrow>
          if n = U ''c.jpg'' then (JNull, s)
          else (let e = JObj [(U ''fileEntryId'', JInt (int (length s) + 100)),
                              (U ''title'', JStr t), (U ''name'', JStr n)]
                in (e, s @ [e])))"

definition demo_doc :: "int \<Rightarrow> string \<Rightarrow> string \<Rightarrow> jobj" where
  "demo_doc fid t n =
     [(U ''fileEntryId'', JInt fid), (U ''title'', JStr (U t)), (U ''name'', JStr (U n))]"

definition demo_world :: "json list world" where
  "demo_world = \<lparr>server = [JObj (demo_doc 7 ''a'' ''a.jpg''), JObj (demo_doc 8 ''c'' ''c.jpg'')],
                 mime_cache = [], calls = []\<rparr>"

definition demo_batch :: "(exn + batch_results) \<times> json list world" where
  "demo_batch =
     upload_files_batch demo_client demo_env Posix
       [U ''a.jpg'', U ''b.jpg'', U ''c.jpg'', U ''missing.jpg''] 1 0 [] True None demo_world"

section \<open>Properties of the normalizer\<close>

lemma re_sub_class_delete: "re_sub_class (\<lambda>c. \<not> P c) [] s = filter P s"
  by (induction s) simp_all

lemma normalize_text_filter:
  "normalize_text L v = filter in_class (py_lower L (py_str v))"
  by (cases v) (simp_all add: normalize_text_def re_sub_class_delete)

lemma lower_cp_in_class: "in_class c \<Longrightarrow> lower_cp L pre c post = [c]"
  by (auto simp: in_class_def lower_cp_def)

lemma lower_from_in_class: "\<forall>c\<in>set s. in_class c \<Longrightarrow> lower_from L pre s = s"
  by (induction s arbitrary: pre) (simp_all add: lower_cp_in_class)

lemma py_lower_in_class: "\<forall>c\<in>set s. in_class c \<Longrightarrow> py_lower L s = s"
  by (simp add: py_lower_def lower_from_in_class)



text \<open>
  C6.  \<open>normalize_text\<close> is idempotent: normalizing its own result gives the result back.
\<close>

theorem normalize_text_idempotent:
  "normalize_text L (PStr (normalize_text L x)) = normalize_text L x"
proof -
  have all: "\<forall>c\<in>set (normalize_text L x). in_class c"
    by (simp add: normalize_text_filter)
  have "normalize_text L (PStr (normalize_text L x))
        = filter in_class (py_lower L (normalize_text L x))"
    by (simp add: normalize_text_filter)
  also have "\<dots> = filter in_class (normalize_text L x)"
    using all by (simp add: py_lower_in_class)
  also have "\<dots> = normalize_text L x"
    using all by (simp add: filter_id_conv)
  finally show ?thesis .
qed

section \<open>Properties of the path functions\<close>

lemma rfind_aux_notin: "c \<notin> set xs \<Longrightarrow> rfind_aux xs c i f = f"
  by (induction xs arbitrary: i f) auto

lemma rfind_aux_append:
  "rfind_aux (xs @ ys) c i f = rfind_aux ys c (i + int (length xs)) (rfind_aux xs c i f)"
  by (induction xs arbitrary: i f) (auto simp: algebra_simps)

lemma rfind_aux_upper: "f < i \<Longrightarrow> rfind_aux xs c i f < i + int (length xs)"
proof (induction xs arbitrary: i f)
  case Nil then show ?case by simp
next
  case (Cons x xs)
  have "rfind_aux xs c (i + 1) (if x = c then i else f) < (i + 1) + int (length xs)"
    using Cons.prems by (intro Cons.IH) auto
  then show ?case by simp
qed

lemma rfind_aux_lower: "f \<le> rfind_aux xs c i f \<or> i \<le> rfind_aux xs c i f"
proof (induction xs arbitrary: i f)
  case Nil then show ?case by simp
next
  case (Cons x xs)
  show ?case using Cons.IH[of "if x = c then i else f" "i + 1"] by (auto split: if_splits)
qed

lemma rfind_upper: "rfind p c < int (length p)"
  using rfind_aux_upper[of "-1" 0 p c] by (simp add: rfind_def)

lemma rfind_lower: "- 1 \<le> rfind p c"
  using rfind_aux_lower[of "-1" p c 0] by (auto simp: rfind_def)

lemma rfind_notin: "c \<notin> set p \<Longrightarrow> rfind p c = - 1"
  by (simp add: rfind_def rfind_aux_notin)

lemma rfind_last: "c \<notin> set e \<Longrightarrow> rfind (r @ c # e) c = int (length r)"
  by (simp add: rfind_def rfind_aux_append rfind_aux_notin)

lemma rfind_append_notin: "c \<notin> set b \<Longrightarrow> rfind (d @ b) c = rfind d c"
  by (simp add: rfind_def rfind_aux_append rfind_aux_notin)

lemma skip_dots_iff:
  "a \<le> b \<Longrightarrow> b \<le> length p \<Longrightarrow>
   skip_dots p e a b \<longleftrightarrow> (\<exists>c\<in>set (take (b - a) (drop a p)). c \<noteq> e)"
proof (induction p e a b rule: skip_dots.induct)
  case (1 p e a b)
  show ?case
  proof (cases "a < b")
    case False
    then show ?thesis by (simp add: skip_dots.simps[of p e a b])
  next
    case True
    with "1.prems" have lt: "a < length p" by simp
    then have dr: "drop a p = p ! a # drop (Suc a) p" by (simp add: Cons_nth_drop_Suc)
    from True obtain k where k: "b - a = Suc k" by (cases "b - a") auto
    then have k': "b - Suc a = k" by simp
    show ?thesis
    proof (cases "p ! a = e")
      case False
      then show ?thesis using True dr k by (simp add: skip_dots.simps[of p e a b])
    next
      case eq: True
      have "skip_dots p e a b = skip_dots p e (a + 1) b"
        using True dr eq by (simp add: skip_dots.simps[of p e a b])
      also have "\<dots> \<longleftrightarrow> (\<exists>c\<in>set (take (b - (a + 1)) (drop (a + 1) p)). c \<noteq> e)"
        using True dr eq "1.prems" by (intro "1.IH") auto
      finally show ?thesis using dr k k' eq by simp
    qed
  qed
qed

lemma sepIndex_eq:
  assumes b: "set b \<inter> seps fl = {}" and d: "d = [] \<or> last d \<in> seps fl"
  shows "(case altsep fl of None \<Rightarrow> rfind (d @ b) (sep fl)
          | Some a' \<Rightarrow> max (rfind (d @ b) (sep fl)) (rfind (d @ b) a')) = int (length d) - 1"
proof -
  have in_d: "rfind (d @ b) c = rfind d c" if "c \<in> seps fl" for c
    using b that by (intro rfind_append_notin) auto
  have key: "c \<in> seps fl \<Longrightarrow> rfind d c \<le> int (length d) - 1" for c
    using rfind_upper[of d c] by simp
  show ?thesis
  proof (cases "d = []")
    case True
    have "rfind b c = - 1" if "c \<in> seps fl" for c
      using b that by (intro rfind_notin) auto
    then have "rfind b (sep fl) = - 1" and "fl = Nt \<Longrightarrow> rfind b 47 = - 1"
      by (simp_all add: seps_def)
    with True show ?thesis by (cases fl) simp_all
  next
    case False
    then obtain d' x where dx: "d = d' @ [x]" by (metis rev_exhaust)
    with d have x: "x \<in> seps fl" by simp
    have hit: "rfind d x = int (length d) - 1"
      using rfind_last[of x "[]" d'] dx by simp
    show ?thesis
    proof (cases fl)
      case Posix
      with x have "x = sep fl" by (simp add: seps_def)
      with hit Posix in_d[of "sep fl"] show ?thesis by (simp add: seps_def)
    next
      case Nt
      have s: "rfind (d @ b) (sep fl) = rfind d (sep fl)" by (rule in_d) (simp add: seps_def)
      have a: "rfind (d @ b) 47 = rfind d 47" by (rule in_d) (simp add: seps_def Nt)
      have us: "rfind d (sep fl) \<le> int (length d) - 1" by (rule key) (simp add: seps_def)
      have ua: "rfind d 47 \<le> int (length d) - 1" by (rule key) (simp add: seps_def Nt)
      from x Nt have "x = sep fl \<or> x = 47" by (auto simp: seps_def)
      with hit s a us ua Nt show ?thesis by auto
    qed
  qed
qed

lemma splitext_split:
  assumes b: "set (s @ extsep # e) \<inter> seps fl = {}" and d: "d = [] \<or> last d \<in> seps fl"
    and e: "extsep \<notin> set e" and s: "\<exists>x\<in>set s. x \<noteq> extsep"
  shows "splitext fl (d @ s @ extsep # e) = (d @ s, extsep # e)"
proof -
  let ?p = "d @ s @ extsep # e"
  have si: "(case altsep fl of None \<Rightarrow> rfind ?p (sep fl)
          | Some a' \<Rightarrow> max (rfind ?p (sep fl)) (rfind ?p a')) = int (length d) - 1"
    using sepIndex_eq[OF b d] by simp
  have di: "rfind ?p extsep = int (length d + length s)"
    using rfind_last[OF e, of "d @ s"] by simp
  have sk: "skip_dots ?p extsep (length d) (length d + length s)"
    using s by (subst skip_dots_iff) auto
  show ?thesis
    unfolding splitext_def splitext_generic_def si di Let_def
    using sk by (simp add: nat_add_distrib)
qed

lemma splitext_nosplit:
  assumes b: "set (replicate n extsep @ m) \<inter> seps fl = {}" and d: "d = [] \<or> last d \<in> seps fl"
    and m: "extsep \<notin> set m"
  shows "splitext fl (d @ replicate n extsep @ m) = (d @ replicate n extsep @ m, [])"
proof -
  let ?p = "d @ replicate n extsep @ m"
  have si: "(case altsep fl of None \<Rightarrow> rfind ?p (sep fl)
          | Some a' \<Rightarrow> max (rfind ?p (sep fl)) (rfind ?p a')) = int (length d) - 1"
    using sepIndex_eq[OF b d] by simp
  show ?thesis
  proof (cases n)
    case 0
    have "rfind ?p extsep = rfind d extsep"
      using m 0 by (simp add: rfind_append_notin)
    then have "rfind ?p extsep \<le> int (length d) - 1"
      using rfind_upper[of d extsep] by simp
    then show ?thesis
      unfolding splitext_def splitext_generic_def si Let_def by simp
  next
    case (Suc k)
    have p: "?p = (d @ replicate k extsep) @ extsep # m"
      using Suc by (simp add: replicate_append_same)
    have di: "rfind ?p extsep = int (length d + k)"
      unfolding p using rfind_last[OF m, of "d @ replicate k extsep"] by simp
    have "\<not> skip_dots ?p extsep (length d) (length d + k)"
      unfolding p by (subst skip_dots_iff) auto
    then show ?thesis
      unfolding splitext_def splitext_generic_def si di Let_def
      by (simp add: nat_add_distrib)
  qed
qed


text \<open>
  C7, as the code has it.  Write a path as a directory part \<open>d\<close> (empty, or ending in a
  separator) followed by a final component without separators.  When the final component
  is \<open>s . e\<close> with no dot in \<open>e\<close> and some code point of \<open>s\<close> other than a dot,
  \<open>normalize_filename\<close> normalizes \<open>d s\<close>: it strips the segment from the last dot on.
  When the final component is a run of dots followed by text without a dot (a name with
  no dot at all, or one whose only dots lead it), nothing is stripped and the whole path
  is normalized.
\<close>

theorem normalize_filename_strips_splitext_extension:
  assumes "d = [] \<or> last d \<in> seps fl"
  shows "(set (s @ extsep # e) \<inter> seps fl = {} \<longrightarrow> extsep \<notin> set e \<longrightarrow> (\<exists>x\<in>set s. x \<noteq> extsep)
           \<longrightarrow> normalize_filename L fl (d @ s @ extsep # e) = normalize_text L (PStr (d @ s)))
       \<and> (set (replicate n extsep @ m) \<inter> seps fl = {} \<longrightarrow> extsep \<notin> set m
           \<longrightarrow> normalize_filename L fl (d @ replicate n extsep @ m)
               = normalize_text L (PStr (d @ replicate n extsep @ m)))"
proof (intro conjI impI)
  assume "set (s @ extsep # e) \<inter> seps fl = {}" and "extsep \<notin> set e" and "\<exists>x\<in>set s. x \<noteq> extsep"
  then have "splitext fl (d @ s @ extsep # e) = (d @ s, extsep # e)"
    using assms by (intro splitext_split)
  then show "normalize_filename L fl (d @ s @ extsep # e) = normalize_text L (PStr (d @ s))"
    by (simp add: normalize_filename_def)
next
  assume "set (replicate n extsep @ m) \<inter> seps fl = {}" and "extsep \<notin> set m"
  then have "splitext fl (d @ replicate n extsep @ m) = (d @ replicate n extsep @ m, [])"
    using assms by (intro splitext_nosplit)
  then show "normalize_filename L fl (d @ replicate n extsep @ m)
             = normalize_text L (PStr (d @ replicate n extsep @ m))"
    by (simp add: normalize_filename_def)
qed

theorem normalize_filename_strips_splitext_extension_witness:
  "normalize_filename no_case Posix (U ''File-Name_123.jpg'') = U ''filename123''
   \<and> normalize_filename no_case Posix (U ''.abc'') = U ''abc''"
proof -
  have a: "normalize_filename no_case Posix ([] @ U ''File-Name_123'' @ extsep # U ''jpg'')
           = normalize_text no_case (PStr ([] @ U ''File-Name_123''))"
    using normalize_filename_strips_splitext_extension
            [where d = "[]" and fl = Posix and s = "U ''File-Name_123''" and e = "U ''jpg''"
               and n = 0 and m = "[]" and L = no_case]
    by (simp add: U_def extsep_def seps_def)
  have b: "normalize_filename no_case Posix ([] @ replicate 1 extsep @ U ''abc'')
           = normalize_text no_case (PStr ([] @ replicate 1 extsep @ U ''abc''))"
    using normalize_filename_strips_splitext_extension
            [where d = "[]" and fl = Posix and s = "[0]" and e = "[]" and n = 1
               and m = "U ''abc''" and L = no_case]
    by (simp add: U_def extsep_def seps_def)
  have c: "normalize_text no_case (PStr (U ''File-Name_123'')) = U ''filename123''"
    by code_simp
  have d: "normalize_text no_case (PStr (46 # U ''abc'')) = U ''abc''"
    by code_simp
  from a b c d show ?thesis by (simp add: U_def extsep_def)
qed

text \<open>
  C7, as the specification words it, fails on a file name that begins with its only
  dot: the code keeps \<open>.abc\<close> whole and normalizes it to \<open>abc\<close>, while stripping the
  segment after the last dot leaves nothing.
\<close>

theorem normalize_filename_last_dot_counterexample:
  "normalize_filename no_case Posix (U ''.abc'') \<noteq> spec_normalize_filename no_case (U ''.abc'')"
  by code_simp

section \<open>Properties of the matcher\<close>

lemma py_in_sublist: "py_in xs ys \<longleftrightarrow> sublist xs ys"
  by (induction ys) (simp_all add: sublist_Cons_right)

lemma scan_items_None:
  "\<forall>(k', v')\<in>set d. \<not> sublist k k' \<and> \<not> sublist k' k \<Longrightarrow> scan_items k d = None"
  by (induction d) (auto simp: py_in_sublist)

lemma scan_items_first:
  "\<forall>(k', v')\<in>set pre. \<not> sublist k k' \<and> \<not> sublist k' k \<Longrightarrow> sublist k rk \<or> sublist rk k \<Longrightarrow>
   scan_items k (pre @ (rk, rv) # post) = Some rv"
  by (induction pre) (auto simp: py_in_sublist)


text \<open>
  C1.  On a dictionary (distinct keys): a file key that is a key of the index gets that
  key's value, whatever other keys contain it or are contained in it; a file key that is
  no key of the index gets the value of the first item, in the order of the items, whose
  key contains the file key or is contained in it; and when there is no such item the
  answer is \<open>None\<close>.
\<close>

theorem find_matching_name_exact_then_first_substring:
  assumes "distinct (map fst d)"
  shows "((k, v) \<in> set d \<longrightarrow> find_matching_name k d = Some v)
       \<and> (k \<notin> fst ` set d \<longrightarrow> d = pre @ (rk, rv) # post
            \<longrightarrow> (\<forall>(k', v')\<in>set pre. \<not> sublist k k' \<and> \<not> sublist k' k)
            \<longrightarrow> sublist k rk \<or> sublist rk k
            \<longrightarrow> find_matching_name k d = Some rv)
       \<and> (k \<notin> fst ` set d \<longrightarrow> (\<forall>(k', v')\<in>set d. \<not> sublist k k' \<and> \<not> sublist k' k)
            \<longrightarrow> find_matching_name k d = None)"
proof (intro conjI impI)
  assume "(k, v) \<in> set d"
  with assms have "map_of d k = Some v" by simp
  then show "find_matching_name k d = Some v" by (simp add: find_matching_name_def)
next
  assume nk: "k \<notin> fst ` set d" and d: "d = pre @ (rk, rv) # post"
    and pre: "\<forall>(k', v')\<in>set pre. \<not> sublist k k' \<and> \<not> sublist k' k"
    and hit: "sublist k rk \<or> sublist rk k"
  from nk have none: "map_of d k = None" by (simp add: map_of_eq_None_iff)
  have "scan_items k d = Some rv"
    unfolding d using pre hit by (rule scan_items_first)
  with none show "find_matching_name k d = Some rv"
    by (simp only: find_matching_name_def option.case)
next
  assume nk: "k \<notin> fst ` set d"
    and all: "\<forall>(k', v')\<in>set d. \<not> sublist k k' \<and> \<not> sublist k' k"
  from nk have none: "map_of d k = None" by (simp add: map_of_eq_None_iff)
  from all have "scan_items k d = None" by (rule scan_items_None)
  with none show "find_matching_name k d = None"
    by (simp only: find_matching_name_def option.case)
qed


theorem find_matching_name_exact_then_first_substring_witness:
  "find_matching_name (U ''ab'') [(U ''xaby'', U ''first''), (U ''ab'', U ''exact'')] = Some (U ''exact'')
   \<and> find_matching_name (U ''ab'') [(U ''cd'', U ''no''), (U ''xaby'', U ''first''), (U ''abz'', U ''second'')]
       = Some (U ''first'')
   \<and> find_matching_name (U ''ab'') [(U ''cd'', U ''no'')] = (None :: ustr option)"
proof -
  have a: "find_matching_name (U ''ab'') [(U ''xaby'', U ''first''), (U ''ab'', U ''exact'')]
           = Some (U ''exact'')"
    using find_matching_name_exact_then_first_substring
            [where d = "[(U ''xaby'', U ''first''), (U ''ab'', U ''exact'')]" and k = "U ''ab''"
               and v = "U ''exact''"]
    by (simp add: U_def)
  have b: "find_matching_name (U ''ab'')
             [(U ''cd'', U ''no''), (U ''xaby'', U ''first''), (U ''abz'', U ''second'')]
           = Some (U ''first'')"
    using find_matching_name_exact_then_first_substring
            [where d = "[(U ''cd'', U ''no''), (U ''xaby'', U ''first''), (U ''abz'', U ''second'')]"
               and k = "U ''ab''" and pre = "[(U ''cd'', U ''no'')]" and rk = "U ''xaby''"
               and rv = "U ''first''" and post = "[(U ''abz'', U ''second'')]"]
    by (simp add: U_def py_in_sublist[symmetric])
  have c: "find_matching_name (U ''ab'') [(U ''cd'', U ''no'')] = (None :: ustr option)"
    using find_matching_name_exact_then_first_substring
            [where d = "[(U ''cd'', U ''no'')]" and k = "U ''ab''"]
    by (simp add: U_def py_in_sublist[symmetric])
  from a b c show ?thesis by blast
qed

lemma scan_descriptions_eq: "scan_descriptions k d = map_option entry_description (scan_items k d)"
  by (induction d) auto

lemma find_description_for_file_eq:
  "find_description_for_file L fl ds fn
   = map_option entry_description (find_matching_name (normalize_filename L fl fn) ds)"
  by (simp add: find_description_for_file_def find_matching_name_def scan_descriptions_eq
      split: option.splits)


text \<open>
  C4.  There is no guard on an empty file key.  The empty string is contained in every
  key, so the scan answers with the first item of the index: in \<open>find_matching_name\<close>,
  and in \<open>find_description_for_file\<close> for a file such as \<open>---.jpg\<close>, whose name
  normalizes to the empty string.
\<close>

theorem find_matching_name_empty_key_matches_first:
  "find_matching_name [] [(U ''report2024'', U ''Report 2024''), (U ''plan'', U ''Plan'')]
     = Some (U ''Report 2024'')
   \<and> find_description_for_file no_case Posix
       [(U ''report2024'', \<lparr>original_name = U ''Report 2024'', entry_description = U ''Annual report'',
                            excel_row = 1\<rparr>)]
       (U ''---.jpg'') = Some (U ''Annual report'')"
  by code_simp


section \<open>Properties of the extension filter\<close>

lemma rfind_cases:
  "(c \<notin> set p \<and> rfind p c = - 1)
   \<or> (\<exists>r e. p = r @ c # e \<and> c \<notin> set e \<and> rfind p c = int (length r))"
proof (cases "c \<in> set p")
  case False
  then show ?thesis by (simp add: rfind_notin)
next
  case True
  then obtain r e where "p = r @ c # e" and "c \<notin> set e"
    by (auto dest: split_list_last)
  then show ?thesis using rfind_last[of c e r] by auto
qed

lemma splitext_ext_shape:
  "snd (splitext fl p) = [] \<or> (\<exists>t. snd (splitext fl p) = extsep # t)"
proof -
  consider "extsep \<notin> set p" "rfind p extsep = - 1"
    | r e where "p = r @ extsep # e" "rfind p extsep = int (length r)"
    using rfind_cases[of extsep p] by blast
  then show ?thesis
  proof cases
    case 1
    have "- 1 \<le> rfind p (sep fl)" by (rule rfind_lower)
    then have "\<not> rfind p extsep > (case altsep fl of None \<Rightarrow> rfind p (sep fl)
          | Some a' \<Rightarrow> max (rfind p (sep fl)) (rfind p a'))"
      using 1 by (cases "altsep fl") auto
    then show ?thesis
      by (simp add: splitext_def splitext_generic_def Let_def)
  next
    case 2
    then show ?thesis
      by (simp add: splitext_def splitext_generic_def Let_def)
  qed
qed

lemma py_lower_Nil: "py_lower L [] = []"
  by (simp add: py_lower_def)

lemma py_lower_dot: "\<exists>t. py_lower L (extsep # e) = extsep # t"
  by (simp add: py_lower_def lower_cp_def extsep_def)

lemma lowered_ext_shape:
  "py_lower L (snd (splitext fl p)) = [] \<or> (\<exists>t. py_lower L (snd (splitext fl p)) = extsep # t)"
  using splitext_ext_shape[of fl p] py_lower_dot[of L] by (auto simp: py_lower_Nil)

text \<open>
  C9, as the code has it.  No allow-list and the empty allow-list accept every file.
  For an allow-list none of whose entries is a lone dot or begins with two dots, a file
  is accepted exactly when its extension as \<open>os.path.splitext\<close> gives it (leading dot
  included), lowercased, is an entry of the allow-list; the entries are compared as they
  are written.
\<close>

theorem check_file_extension_lowercased_membership:
  assumes "\<forall>e\<in>set exts. e \<noteq> [extsep] \<and> \<not> prefix [extsep, extsep] e"
  shows "check_file_extension L fl filename None
       \<and> check_file_extension L fl filename (Some [])
       \<and> (check_file_extension L fl filename (Some exts)
            \<longleftrightarrow> exts = [] \<or> py_lower L (snd (splitext fl filename)) \<in> set exts)"
proof -
  let ?x = "py_lower L (snd (splitext fl filename))"
  have "extsep # ?x \<notin> set exts"
  proof
    assume m: "extsep # ?x \<in> set exts"
    from lowered_ext_shape[of L fl filename]
    have "extsep # ?x = [extsep] \<or> prefix [extsep, extsep] (extsep # ?x)" by auto
    with m assms show False by blast
  qed
  then show ?thesis
    by (simp add: check_file_extension_def U_def extsep_def)
qed

theorem check_file_extension_lowercased_membership_witness:
  "check_file_extension no_case Posix (U ''photo.JPG'') (Some [U ''.jpg'', U ''.png''])
   \<and> \<not> check_file_extension no_case Posix (U ''photo.gif'') (Some [U ''.jpg'', U ''.png''])"
proof -
  have a: "py_lower no_case (snd (splitext Posix (U ''photo.JPG''))) = U ''.jpg''"
    by code_simp
  have b: "py_lower no_case (snd (splitext Posix (U ''photo.gif''))) = U ''.gif''"
    by code_simp
  have h: "\<forall>e\<in>set [U ''.jpg'', U ''.png'']. e \<noteq> [extsep] \<and> \<not> prefix [extsep, extsep] e"
    by (simp add: U_def extsep_def)
  have "check_file_extension no_case Posix (U ''photo.JPG'') (Some [U ''.jpg'', U ''.png''])"
    using check_file_extension_lowercased_membership
            [OF h, where L = no_case and fl = Posix and filename = "U ''photo.JPG''"] a
    by (simp add: U_def)
  moreover
  have "\<not> check_file_extension no_case Posix (U ''photo.gif'') (Some [U ''.jpg'', U ''.png''])"
    using check_file_extension_lowercased_membership
            [OF h, where L = no_case and fl = Posix and filename = "U ''photo.gif''"] b
    by (simp add: U_def)
  ultimately show ?thesis by blast
qed

text \<open>
  C9, as the specification words it, fails when the allow-list is written in capitals:
  the file's extension is lowercased and the entry is not, so \<open>a.jpg\<close> is rejected
  against \<open>.JPG\<close>, which a comparison that ignores case on both sides accepts.
\<close>

theorem check_file_extension_case_counterexample:
  "\<not> check_file_extension no_case Posix (U ''a.jpg'') (Some [U ''.JPG''])
   \<and> spec_extension_allowed no_case Posix (U ''a.jpg'') (Some [U ''.JPG''])"
  by code_simp


section \<open>Properties of the uploader\<close>



lemma calls_update_file_description:
  "calls (snd (update_file_description c fid description w))
   = calls w @ [UpdateFileEntry fid description]"
  by (simp add: update_file_description_def call_jsonws_def split: prod.splits)




text \<open>
  C8.  When the file is readable, the add call answers with a document (a non-empty
  object) that has no true \<open>description\<close>, and the requested description is not empty,
  \<open>_upload_file_internal\<close> issues one more call, the update of the description of the
  new document, and returns the uploaded document: the answer of the update call is not
  part of the result, so a failed update leaves the outcome a success.
\<close>

theorem upload_file_internal_description_patch_not_fatal:
  assumes rd: "read_b64 E fp = Some content"
    and mt: "get_mime_type E fp w = (mime_type, w1)"
    and add: "call_jsonws c
                (AddFileEntry site_id folder_id (basename E fp) mime_type
                   (fst (splitext fl (basename E fp))) description change_log content) w1
              = (JObj d, w2)"
    and ok: "d \<noteq> []"
    and desc: "description \<noteq> []"
    and lacks: "\<not> truthy (dict_get d (U ''description''))"
  shows "upload_file_internal c E fl fp site_id folder_id description change_log w
           = (JObj d,
              snd (update_file_description c (dict_get d (U ''fileEntryId'')) description w2))
         \<and> truthy (JObj d)
         \<and> calls (snd (update_file_description c (dict_get d (U ''fileEntryId''))
                     description w2))
           = calls w2 @ [UpdateFileEntry (dict_get d (U ''fileEntryId'')) description]"
  using assms
  by (simp add: upload_file_internal_def calls_update_file_description split: prod.splits)

theorem upload_file_internal_description_patch_not_fatal_witness:
  "fst (upload_file_internal demo_client demo_env Posix (U ''b.jpg'') 1 0 (U ''text'') (U ''log'')
          demo_world) = JObj (demo_doc 102 ''b'' ''b.jpg'')
   \<and> \<not> fst (update_file_description demo_client (JInt 102) (U ''text'') demo_world)"
proof -
  let ?mt = "get_mime_type demo_env (U ''b.jpg'') demo_world"
  let ?add = "call_jsonws demo_client
                (AddFileEntry 1 0 (basename demo_env (U ''b.jpg'')) (fst ?mt)
                   (fst (splitext Posix (basename demo_env (U ''b.jpg'')))) (U ''text'')
                   (U ''log'') (U ''QUJD'')) (snd ?mt)"
  have a: "read_b64 demo_env (U ''b.jpg'') = Some (U ''QUJD'')"
    by code_simp
  have b: "?mt = (fst ?mt, snd ?mt)"
    by simp
  have "fst ?add = JObj (demo_doc 102 ''b'' ''b.jpg'')"
    by code_simp
  then have c: "?add = (JObj (demo_doc 102 ''b'' ''b.jpg''), snd ?add)"
    by (metis prod.collapse)
  have d: "demo_doc 102 ''b'' ''b.jpg'' \<noteq> []"
    by (simp add: demo_doc_def)
  have e: "U ''text'' \<noteq> []"
    by (simp add: U_def)
  have f: "\<not> truthy (dict_get (demo_doc 102 ''b'' ''b.jpg'') (U ''description''))"
    by code_simp
  have g: "\<not> fst (update_file_description demo_client (JInt 102) (U ''text'') demo_world)"
    by code_simp
  from upload_file_internal_description_patch_not_fatal [OF a b c d e f] g
  show ?thesis by simp
qed

lemma batch_loop_counts:
  "batch_loop c E fl site_id folder_id tmpl repl md n i files res w = (Inr out, w') \<Longrightarrow>
   length (successful out) + length (failed out) + length (skipped out)
   = length (successful res) + length (failed res) + length (skipped res) + length files"
proof (induction files arbitrary: i res w repl)
  case Nil
  then show ?case by simp
next
  case (Cons p rest)
  show ?case
    using Cons.prems
    by (auto simp: Let_def split: if_splits option.splits prod.splits json.splits
             dest!: Cons.IH)
qed

lemma batch_loop_replaced:
  "batch_loop c E fl site_id folder_id tmpl repl md n i files res w = (Inr out, w') \<Longrightarrow>
   replaced res = filter was_replaced (successful res) \<Longrightarrow>
   replaced out = filter was_replaced (successful out)"
proof (induction files arbitrary: i res w repl)
  case Nil
  then show ?case by simp
next
  case (Cons p rest)
  show ?case
    using Cons.prems
    by (auto simp: Let_def split: if_splits option.splits prod.splits json.splits
             dest!: Cons.IH)
qed

lemma answers_documentsD:
  "answers_documents c \<Longrightarrow> c (AddFileEntry a b n m t d l f) s = (result, s') \<Longrightarrow> truthy result
   \<Longrightarrow> \<exists>doc. result = JObj doc"
  unfolding answers_documents_def by (metis fst_conv)

lemma upload_file_internal_shape:
  assumes "answers_documents c"
    and "upload_file_internal c E fl fp site_id folder_id description change_log w = (result, w')"
    and "truthy result"
  shows "\<exists>doc. result = JObj doc"
  using assms(2,3) answers_documentsD[OF assms(1)]
  by (auto simp: upload_file_internal_def call_jsonws_def Let_def
           split: option.splits prod.splits if_splits json.splits)

lemma upload_or_replace_file_shape:
  assumes "answers_documents c"
    and "upload_or_replace_file c E fl fp site_id folder_id description repl change_log w
         = (result, w')"
    and "truthy result"
  shows "\<exists>doc. result = JObj doc"
  using assms(2,3) upload_file_internal_shape[OF assms(1)]
  by (auto simp: upload_or_replace_file_def Let_def split: prod.splits if_splits)

lemma batch_description_empty_template:
  "\<exists>d. batch_description E [] md name i n = Some d"
  by (simp add: batch_description_def split: option.splits)

lemma batch_loop_returns:
  assumes c: "answers_documents c"
  shows "\<exists>out w'. batch_loop c E fl site_id folder_id [] repl md n i files res w = (Inr out, w')"
proof (induction files arbitrary: i res w)
  case Nil
  show ?case by simp
next
  case (Cons p rest)
  show ?case
  proof (cases "path_exists E p")
    case False
    then show ?thesis using Cons.IH by simp
  next
    case True
    obtain d where d: "batch_description E [] md (basename E p) i n = Some d"
      using batch_description_empty_template by blast
    obtain existing w1 where chk:
      "check_file_exists c fl site_id folder_id (basename E p) w = (existing, w1)"
      by (cases "check_file_exists c fl site_id folder_id (basename E p) w")
    obtain result w2 where up:
      "upload_or_replace_file c E fl p site_id folder_id d repl (batch_change_log i n) w1
       = (result, w2)"
      by (cases "upload_or_replace_file c E fl p site_id folder_id d repl
                   (batch_change_log i n) w1")
    show ?thesis
    proof (cases "truthy result")
      case False
      then show ?thesis using True d chk up Cons.IH by simp
    next
      case t: True
      then obtain doc where "result = JObj doc"
        using upload_or_replace_file_shape[OF c up] by blast
      then show ?thesis using True d chk up t Cons.IH by (simp add: Let_def)
    qed
  qed
qed

lemma upload_files_batch_invariants:
  assumes "upload_files_batch c E fl files site_id folder_id tmpl repl md w = (Inr r, w')"
  shows "length (successful r) + length (failed r) + length (skipped r) = length files"
    and "replaced r = filter was_replaced (successful r)"
  using batch_loop_counts[OF assms[unfolded upload_files_batch_def]]
        batch_loop_replaced[OF assms[unfolded upload_files_batch_def]]
  by simp_all

lemma answers_documents_demo: "answers_documents demo_client"
  by (simp add: answers_documents_def demo_client_def Let_def)

lemma demo_batch_report: "demo_batch = (Inr (projr (fst demo_batch)), snd demo_batch)"
proof -
  obtain r w' where "demo_batch = (Inr r, w')"
    unfolding demo_batch_def upload_files_batch_def
    using batch_loop_returns[OF answers_documents_demo] by blast
  then show ?thesis by (metis fst_conv snd_conv sum.sel(2))
qed



text \<open>
  C10.  In every report a batch run returns, the replaced list holds exactly the
  successful entries that are marked as replacements: every replaced entry is a
  successful one, and there are at most as many replaced entries as successful ones.
\<close>

theorem upload_files_batch_replaced_in_successful:
  assumes "upload_files_batch c E fl files site_id folder_id tmpl repl md w = (Inr r, w')"
  shows "replaced r = filter was_replaced (successful r)
       \<and> set (replaced r) \<subseteq> set (successful r)
       \<and> length (replaced r) \<le> length (successful r)"
proof -
  have eq: "replaced r = filter was_replaced (successful r)"
    by (rule upload_files_batch_invariants(2)[OF assms])
  then show ?thesis by simp
qed

theorem upload_files_batch_replaced_in_successful_witness:
  "set (replaced (projr (fst demo_batch))) \<subseteq> set (successful (projr (fst demo_batch)))
   \<and> length (replaced (projr (fst demo_batch))) = 1
   \<and> length (successful (projr (fst demo_batch))) = 2"
proof -
  have run: "upload_files_batch demo_client demo_env Posix
               [U ''a.jpg'', U ''b.jpg'', U ''c.jpg'', U ''missing.jpg''] 1 0 [] True None
               demo_world = (Inr (projr (fst demo_batch)), snd demo_batch)"
    using demo_batch_report by (simp add: demo_batch_def)
  have a: "set (replaced (projr (fst demo_batch))) \<subseteq> set (successful (projr (fst demo_batch)))"
    using upload_files_batch_replaced_in_successful [OF run] by blast
  have b: "length (replaced (projr (fst demo_batch))) = 1
           \<and> length (successful (projr (fst demo_batch))) = 2"
    by code_simp
  from a b show ?thesis by blast
qed


end
